theory Spec2Isabelle
  imports Main "HOL-Library.Word"
begin

section \<open>The inspector test driver (Sources/inspector-test.cpp)\<close>

text \<open>
  The file glues two task runners, the script engine, the inspector session and the debug
  transport together. Its own logic is control flow around calls into those collaborators,
  so the embedding is a trace semantics: every call that leaves the file (stdio, a
  TaskRunner method, the engine, the transport) is recorded as an \<open>event\<close>, in program
  order, in the \<open>trace\<close> of the \<open>world\<close>; the file's own globals are fields of the world.
\<close>

subsection \<open>Data\<close>

type_synonym cchar = "8 word"
type_synonym uchar16 = "16 word"

text \<open>Pointers to the collaborators' objects are identified by numbers.\<close>

type_synonym TaskRunner = nat
type_synonym Context = nat
type_synonym Session = nat
type_synonym Function = nat

text \<open>
  \<open>v8_inspector::StringView\<close>: a pointer and a length, 8-bit or 16-bit. An 8-bit view is
  its \<open>length\<close> characters together with the memory that follows them, because the file
  hands \<open>characters8()\<close> to a reader of NUL-terminated text, which does not stop at
  \<open>length\<close>. A 16-bit view is only ever read below \<open>length\<close>.
\<close>

datatype StringView = StringView8 "cchar list" "cchar list" | StringView16 "uchar16 list"

fun is8Bit :: "StringView \<Rightarrow> bool" where
  "is8Bit (StringView8 cs beyond) = True"
| "is8Bit (StringView16 ws) = False"

fun length_sv :: "StringView \<Rightarrow> nat" where
  "length_sv (StringView8 cs beyond) = length cs"
| "length_sv (StringView16 ws) = length ws"

text \<open>
  Script values, as far as the file tells them apart: \<open>IsString\<close>, \<open>IsFunction\<close>,
  \<open>IsNumber\<close>, \<open>IsSymbol\<close>. A number is its IEEE-754 binary64 bit pattern; a symbol
  carries its \<open>Name()\<close>.
\<close>

datatype Value =
    Undefined
  | Number "64 word"
  | String "uchar16 list"
  | FunctionValue Function
  | Symbol Value
  | Object nat

fun IsString :: "Value \<Rightarrow> bool" where
  "IsString (String s) = True"
| "IsString v = False"

fun IsFunction :: "Value \<Rightarrow> bool" where
  "IsFunction (FunctionValue f) = True"
| "IsFunction v = False"

fun IsNumber :: "Value \<Rightarrow> bool" where
  "IsNumber (Number d) = True"
| "IsNumber v = False"

fun IsSymbol :: "Value \<Rightarrow> bool" where
  "IsSymbol (Symbol n) = True"
| "IsSymbol v = False"

text \<open>
  \<open>Value() != 0.0\<close> on a binary64: false exactly for the two zeros (all bits clear but
  possibly the sign bit), true for every other pattern, NaN included.
\<close>

definition double_ne_zero :: "64 word \<Rightarrow> bool" where
  "double_ne_zero d = (d \<noteq> 0 \<and> d \<noteq> 0x8000000000000000)"

text \<open>
  \<open>v8::FunctionCallbackInfo\<close>: the arguments of a native call and the context it was
  made in. \<open>args[i]\<close> beyond \<open>Length()\<close> is the undefined value.
\<close>

record FunctionCallbackInfo =
  args :: "Value list"
  GetCurrentContext :: Context

definition Length :: "FunctionCallbackInfo \<Rightarrow> nat" where
  "Length info = length (args info)"

definition arg :: "FunctionCallbackInfo \<Rightarrow> nat \<Rightarrow> Value" where
  "arg info i = (if i < length (args info) then args info ! i else Undefined)"

text \<open>
  The subclasses of \<open>TaskRunner::Task\<close> the file creates. \<open>ExecuteStringTask\<close> has one
  constructor from 16-bit text (used by \<open>SetTimeout\<close>) and one from 8-bit file content
  (used by \<open>Load\<close>).
\<close>

datatype Task =
    ExecuteStringTask "uchar16 list"
  | ExecuteStringTask_chars "cchar list"
  | SetTimeoutTask Function
  | SendMessageToBackendTask "cchar list"


text \<open>
  The calls that leave the file. \<open>ExitProcess\<close> stands for a call of the C library's
  \<open>exit\<close> or \<open>abort\<close>; it is part of the alphabet so that its absence from a trace can
  be stated.
\<close>

datatype event =
    Printf string
  | Fwrite "cchar list"
  | FprintfStderr string
  | FflushStdout
  | FflushStderr
  | RunnerTerminate TaskRunner
  | RunnerJoin TaskRunner
  | Append TaskRunner Task
  | RunTask Context Task
  | SetLocaleNumeric "cchar list option"
  | ReadFileCall "cchar list"
  | ThrowException string
  | ReThrow
  | SendMessage "cchar list"
  | DispatchProtocolMessage Session StringView
  | ExitProcess

text \<open>
  The file's globals (\<open>task_runners\<close>, \<open>backend_task_runner\<close>), the trace, and what the
  next calls of \<open>fwrite\<close> will return: the head of \<open>fwrite_returns\<close> is the number of bytes
  the next call manages to write, and an empty list means every further write is complete.
\<close>

record world =
  task_runners :: "TaskRunner list"
  backend_task_runner :: "TaskRunner option"
  fwrite_returns :: "nat list"
  trace :: "event list"

text \<open>
  What the code under \<open>src/\<close> takes from the engine, the inspector and the file system,
  none of which is in the repository; each is a parameter.
  \<^item> \<open>JS_ToString\<close>: the script-level string conversion of a value that is not a string,
    \<open>None\<close> when the conversion throws;
  \<^item> \<open>WriteUtf8\<close>: the UTF-8 bytes of a string;
  \<^item> \<open>ReadFile\<close>: the content of the named file, \<open>None\<close> when \<open>exists\<close> comes back false;
  \<^item> \<open>FromContext\<close>: \<open>TaskRunner::FromContext\<close>;
  \<^item> \<open>SessionFromContext\<close>: \<open>InspectorClientImpl::SessionFromContext\<close>, \<open>None\<close> for a
    null pointer;
  \<^item> \<open>unchecked_String\<close>: the characters \<open>Length()\<close> and \<open>Write()\<close> produce when
    \<open>As<v8::String>()\<close>, which does not check, was applied to a value that is not a string;
  \<^item> \<open>kMaxLength\<close>: the longest string the engine creates;
  \<^item> \<open>stack_garbage\<close>: the indeterminate initial content of a local array.
\<close>

record engine =
  JS_ToString :: "Value \<Rightarrow> uchar16 list option"
  WriteUtf8 :: "uchar16 list \<Rightarrow> cchar list"
  ReadFile :: "cchar list \<Rightarrow> cchar list option"
  FromContext :: "Context \<Rightarrow> TaskRunner"
  SessionFromContext :: "Context \<Rightarrow> Session option"
  unchecked_String :: "Value \<Rightarrow> uchar16 list"
  kMaxLength :: nat
  stack_garbage :: "nat \<Rightarrow> cchar"

text \<open>What ends the process on the spot, or leaves defined behaviour.\<close>

datatype fatal =
    CheckFailed
  | ToLocalCheckedEmpty
  | StackBufferOverrun
  | ReadPastEnd
  | NullPointer

definition emit :: "event \<Rightarrow> world \<Rightarrow> world" where
  "emit e w = w\<lparr>trace := trace w @ [e]\<rparr>"

subsection \<open>Engine and C library helpers\<close>

text \<open>\<open>Value::ToString\<close>: a string converts to itself, anything else as the script says.\<close>

definition Value_ToString :: "engine \<Rightarrow> Value \<Rightarrow> uchar16 list option" where
  "Value_ToString e v = (case v of String s \<Rightarrow> Some s | _ \<Rightarrow> JS_ToString e v)"

text \<open>
  \<open>v8::String::Utf8Value str(v)\<close>: converts \<open>v\<close> to a string and that to UTF-8;
  \<open>*str\<close> is null (\<open>None\<close>) when the conversion throws.
\<close>

definition Utf8Value :: "engine \<Rightarrow> Value \<Rightarrow> cchar list option" where
  "Utf8Value e v = map_option (WriteUtf8 e) (Value_ToString e v)"

text \<open>What a reader of NUL-terminated text sees in a buffer that ends with a NUL.\<close>

definition c_str :: "cchar list \<Rightarrow> cchar list" where
  "c_str s = takeWhile (\<lambda>c. c \<noteq> 0) s"

text \<open>
  The same reader on a stretch of memory that may hold no NUL: it then runs off the end.
\<close>

definition c_str_read :: "cchar list \<Rightarrow> fatal + cchar list" where
  "c_str_read mem = (if 0 \<in> set mem then Inr (c_str mem) else Inl ReadPastEnd)"

text \<open>
  \<open>fwrite(p, 1, n, stdout)\<close> writes as many of the \<open>n\<close> bytes as the environment lets it
  and returns that number.
\<close>

definition fwrite :: "cchar list \<Rightarrow> world \<Rightarrow> nat \<times> world" where
  "fwrite bs w =
     (case fwrite_returns w of
        [] \<Rightarrow> (length bs, emit (Fwrite bs) w)
      | r # rs \<Rightarrow> (min r (length bs), emit (Fwrite (take r bs)) (w\<lparr>fwrite_returns := rs\<rparr>)))"

subsection \<open>Global shutdown: Terminate and Exit\<close>

text \<open>
  \<open>Terminate()\<close> walks \<open>task_runners\<close> by index, calling \<open>Terminate()\<close> and then \<open>Join()\<close>
  on each runner, and afterwards swaps the vector with an empty one.
\<close>

fun Terminate_loop :: "TaskRunner list \<Rightarrow> world \<Rightarrow> world" where
  "Terminate_loop [] w = w"
| "Terminate_loop (r # rs) w = Terminate_loop rs (emit (RunnerJoin r) (emit (RunnerTerminate r) w))"

definition Terminate :: "world \<Rightarrow> world" where
  "Terminate w = (Terminate_loop (task_runners w) w)\<lparr>task_runners := []\<rparr>"

text \<open>\<open>Exit()\<close>: flush both streams, then \<open>Terminate()\<close>; it returns to its caller.\<close>

definition Exit :: "world \<Rightarrow> world" where
  "Exit w = Terminate (emit FflushStderr (emit FflushStdout w))"

text \<open>The events one pass over a runner list produces.\<close>

fun shutdown_events :: "TaskRunner list \<Rightarrow> event list" where
  "shutdown_events [] = []"
| "shutdown_events (r # rs) = RunnerTerminate r # RunnerJoin r # shutdown_events rs"

fun is_runner_event :: "event \<Rightarrow> bool" where
  "is_runner_event (RunnerTerminate r) = True"
| "is_runner_event (RunnerJoin r) = True"
| "is_runner_event e = False"

subsection \<open>UtilsExtension: print, quit, setlocale, load\<close>

definition Quit :: "FunctionCallbackInfo \<Rightarrow> world \<Rightarrow> world" where
  "Quit info w = Exit w"

text \<open>
  The loop of \<open>Print\<close> from index \<open>i\<close> on. \<open>Inl\<close> is the early \<open>return\<close> after
  \<open>ReThrow()\<close>; \<open>Inr\<close> is the loop running to its end. After a short write the loop goes
  on with the next argument once \<open>Quit\<close> has returned.
\<close>

fun Print_loop :: "engine \<Rightarrow> FunctionCallbackInfo \<Rightarrow> nat \<Rightarrow> Value list \<Rightarrow> world \<Rightarrow> world + world" where
  "Print_loop e info i [] w = Inr w"
| "Print_loop e info i (a # as) w =
     (let w1 = (if i \<noteq> 0 then emit (Printf '' '') w else w);
          a' = (case a of Symbol name \<Rightarrow> name | _ \<Rightarrow> a)
      in case Value_ToString e a' of
           None \<Rightarrow> Inl (emit ReThrow w1)
         | Some str_obj \<Rightarrow>
             (let str = WriteUtf8 e str_obj;
                  (n, w2) = fwrite str w1;
                  w3 = (if n \<noteq> length str
                        then Quit info (emit (Printf ''Error in fwrite\<newline>'') w2)
                        else w2)
              in Print_loop e info (Suc i) as w3))"

definition Print :: "engine \<Rightarrow> FunctionCallbackInfo \<Rightarrow> world \<Rightarrow> world" where
  "Print e info w =
     (case Print_loop e info 0 (args info) w of
        Inl w' \<Rightarrow> w'
      | Inr w' \<Rightarrow> emit FflushStdout (emit (Printf ''\<newline>'') w'))"

text \<open>
  For stating what \<open>Print\<close> writes: the bytes an argument is written as (a symbol through
  its name), \<open>None\<close> when the conversion throws, and the \<open>stdout\<close> calls that write a list
  of byte strings with one space between neighbours.
\<close>

definition stringify :: "engine \<Rightarrow> Value \<Rightarrow> cchar list option" where
  "stringify e a = Utf8Value e (case a of Symbol name \<Rightarrow> name | _ \<Rightarrow> a)"

fun spaced :: "cchar list list \<Rightarrow> event list" where
  "spaced [] = []"
| "spaced (s # ss) = Fwrite s # concat (map (\<lambda>t. [Printf '' '', Fwrite t]) ss)"

definition SetLocale :: "engine \<Rightarrow> FunctionCallbackInfo \<Rightarrow> world \<Rightarrow> world" where
  "SetLocale e info w =
     (let w1 = (if Length info \<noteq> 1 \<or> \<not> IsString (arg info 0)
                then Exit (emit (FprintfStderr ''Internal error: setlocale get one string argument.'') w)
                else w);
          str = Utf8Value e (arg info 0)
      in emit (SetLocaleNumeric (map_option c_str str)) w1)"

definition Load :: "engine \<Rightarrow> FunctionCallbackInfo \<Rightarrow> world \<Rightarrow> world" where
  "Load e info w =
     (let w1 = (if Length info \<noteq> 1 \<or> \<not> IsString (arg info 0)
                then Exit (emit (FprintfStderr ''Internal error: load gets one string argument.'') w)
                else w);
          str = Utf8Value e (arg info 0);
          filename = (case str of None \<Rightarrow> [] | Some bs \<Rightarrow> bs);
          w2 = emit (ReadFileCall (c_str filename)) w1
      in case ReadFile e (c_str filename) of
           None \<Rightarrow> emit (ThrowException ''Error loading file'') w2
         | Some chars \<Rightarrow> emit (RunTask (GetCurrentContext info) (ExecuteStringTask_chars chars)) w2)"

subsection \<open>SetTimeoutExtension\<close>

text \<open>
  \<open>str->Write(buffer, start, length)\<close> copies \<open>length\<close> characters from \<open>start\<close> on;
  \<open>ToVector\<close> asks for all \<open>str->Length()\<close> of them from 0.
\<close>

definition String_Write :: "uchar16 list \<Rightarrow> nat \<Rightarrow> nat \<Rightarrow> uchar16 list" where
  "String_Write str start len = take len (drop start str)"

definition ToVector :: "uchar16 list \<Rightarrow> uchar16 list" where
  "ToVector str = String_Write str 0 (length str)"

text \<open>\<open>v.As<v8::String>()\<close>: no check is made that \<open>v\<close> is a string.\<close>

definition As_String :: "engine \<Rightarrow> Value \<Rightarrow> uchar16 list" where
  "As_String e v = (case v of String s \<Rightarrow> s | _ \<Rightarrow> unchecked_String e v)"

text \<open>
  The test that opens \<open>SetTimeout\<close>. The source's \<open>||\<close> evaluates \<open>Value()\<close> only when
  \<open>args[1]\<close> is a number; the case distinction below does the same.
\<close>

definition SetTimeout_rejects :: "FunctionCallbackInfo \<Rightarrow> bool" where
  "SetTimeout_rejects info =
     (Length info \<noteq> 2
      \<or> \<not> IsNumber (arg info 1)
      \<or> (\<not> IsFunction (arg info 0) \<and> \<not> IsString (arg info 0))
      \<or> (case arg info 1 of Number d \<Rightarrow> double_ne_zero d | _ \<Rightarrow> False))"

definition SetTimeout :: "engine \<Rightarrow> FunctionCallbackInfo \<Rightarrow> world \<Rightarrow> world" where
  "SetTimeout e info w =
     (let w1 = (if SetTimeout_rejects info
                then Exit (emit (FprintfStderr ''Internal error: only setTimeout(function, 0) is supported.'') w)
                else w);
          context = GetCurrentContext info
      in case arg info 0 of
           FunctionValue f \<Rightarrow> emit (Append (FromContext e context) (SetTimeoutTask f)) w1
         | v \<Rightarrow> emit (Append (FromContext e context)
                         (ExecuteStringTask (ToVector (As_String e v)))) w1)"

subsection \<open>FrontendChannelImpl\<close>

text \<open>
  The file's own \<open>ToString(isolate, string)\<close>: a new engine string from the view.
  \<open>ToLocalChecked()\<close> ends the process when the engine refuses the length.
\<close>

definition ToString :: "engine \<Rightarrow> StringView \<Rightarrow> fatal + uchar16 list" where
  "ToString e sv =
     (if kMaxLength e < length_sv sv then Inl ToLocalCheckedEmpty
      else case sv of
             StringView8 cs beyond \<Rightarrow> Inr (map ucast cs)
           | StringView16 ws \<Rightarrow> Inr ws)"

text \<open>\<open>char msg[2048]\<close>, not initialised.\<close>

definition msg_array :: "engine \<Rightarrow> cchar list" where
  "msg_array e = map (stack_garbage e) [0..<2048]"

text \<open>A store into a local array; outside its bounds it overruns the stack.\<close>

definition store :: "cchar list \<Rightarrow> nat \<Rightarrow> cchar \<Rightarrow> fatal + cchar list" where
  "store buf i v = (if i < length buf then Inr (buf[i := v]) else Inl StackBufferOverrun)"

text \<open>
  \<open>for (i = 0; i < message.length(); ++i) msg[i] = (char)message.characters16()[i]\<close>,
  from index \<open>i\<close> on, over the characters not yet copied.
\<close>

fun narrow_loop :: "uchar16 list \<Rightarrow> nat \<Rightarrow> cchar list \<Rightarrow> fatal + cchar list" where
  "narrow_loop [] i msg = Inr msg"
| "narrow_loop (c # cs) i msg =
     (case store msg i (ucast c) of
        Inl f \<Rightarrow> Inl f
      | Inr msg' \<Rightarrow> narrow_loop cs (Suc i) msg')"

text \<open>The transport's \<open>sendMessage(const char*)\<close> takes NUL-terminated text.\<close>

definition sendMessage :: "cchar list \<Rightarrow> world \<Rightarrow> fatal + world" where
  "sendMessage mem w =
     (case c_str_read mem of
        Inl f \<Rightarrow> Inl f
      | Inr text \<Rightarrow> Inr (emit (SendMessage text) w))"

definition SendMessageToFrontend :: "engine \<Rightarrow> StringView \<Rightarrow> world \<Rightarrow> fatal + world" where
  "SendMessageToFrontend e message w =
     (case ToString e message of
        Inl f \<Rightarrow> Inl f
      | Inr message_string \<Rightarrow>
          (case message of
             StringView8 cs beyond \<Rightarrow> sendMessage (cs @ beyond) w
           | StringView16 ws \<Rightarrow>
               (case narrow_loop ws 0 (msg_array e) of
                  Inl f \<Rightarrow> Inl f
                | Inr msg \<Rightarrow>
                    (case store msg (length ws) 0 of
                       Inl f \<Rightarrow> Inl f
                     | Inr msg' \<Rightarrow> sendMessage msg' w))))"

subsection \<open>SendMessageToBackendTask and receiveMessage\<close>

text \<open>
  \<open>SendMessageToBackendTask::Run\<close> in the context the runner gives it, for the task's
  text (the member \<open>message_\<close>). \<open>CHECK(session)\<close>
  ends the process when no session is bound. The view handed to the session is over
  \<open>message_.c_str()\<close>: the text, followed by the terminating NUL.
\<close>

definition SendMessageToBackendTask_Run ::
    "engine \<Rightarrow> cchar list \<Rightarrow> Context \<Rightarrow> world \<Rightarrow> fatal + world" where
  "SendMessageToBackendTask_Run e message global_context w =
     (case SessionFromContext e global_context of
        None \<Rightarrow> Inl CheckFailed
      | Some session \<Rightarrow>
          Inr (emit (DispatchProtocolMessage session (StringView8 message [0])) w))"


subsection \<open>The runner behind a TaskRunner pointer\<close>







subsection \<open>Startup: the main thread of kore\<close>

text \<open>
  What is constructed with a pointer to \<open>ready_semaphore\<close>: the two task runners, the
  inspector client, and the transport server (\<open>startServer\<close>).
\<close>

datatype component = BackendRunner | FrontendRunner | InspectorClient | Server

text \<open>
  The statements of \<open>kore\<close> from the declaration of \<open>ready_semaphore\<close> (line 324) to the
  first \<open>while (true) {}\<close> (line 354), after which nothing is reached. The
  \<open>ready_semaphore.Wait()\<close> that follows \<open>startServer\<close> in the source is commented out.
\<close>

datatype statement =
    Construct component
  | Wait
  | Assign_backend_task_runner
  | Set_backend_task_runner
  | Construct_FrontendChannel
  | Push_back component
  | Assign_receiveMessageCallback
  | While_true

definition kore :: "statement list" where
  "kore =
     [Construct BackendRunner,
      Assign_backend_task_runner,
      Wait,
      Set_backend_task_runner,
      Construct FrontendRunner,
      Wait,
      Construct_FrontendChannel,
      Construct InspectorClient,
      Wait,
      Push_back FrontendRunner,
      Push_back BackendRunner,
      Assign_receiveMessageCallback,
      Construct Server,
      While_true]"

text \<open>
  The state of the startup: the main thread's position in \<open>kore\<close>, the count of the
  semaphore (0 at its declaration), what has been constructed and what has signalled.
\<close>

record startup =
  pc :: nat
  ready_semaphore :: nat
  constructed :: "component set"
  signalled :: "component set"

definition kore_init :: startup where
  "kore_init = \<lparr>pc = 0, ready_semaphore = 0, constructed = {}, signalled = {}\<rparr>"

datatype actor = Main | Ready component

text \<open>
  One statement of the main thread. \<open>Wait()\<close> blocks (\<open>None\<close>: no step) while the count is
  0 and takes one off otherwise; \<open>while (true) {}\<close> never moves on.
\<close>

definition kore_step :: "startup \<Rightarrow> startup option" where
  "kore_step s =
     (if pc s < length kore
      then (case kore ! pc s of
              Construct c \<Rightarrow> Some (s\<lparr>pc := Suc (pc s), constructed := insert c (constructed s)\<rparr>)
            | Wait \<Rightarrow>
                (if ready_semaphore s = 0 then None
                 else Some (s\<lparr>pc := Suc (pc s), ready_semaphore := ready_semaphore s - 1\<rparr>))
            | While_true \<Rightarrow> Some s
            | _ \<Rightarrow> Some (s\<lparr>pc := Suc (pc s)\<rparr>))
      else None)"

text \<open>
  Modelled from the spec: the threads behind \<open>TaskRunner\<close>, \<open>InspectorClientImpl\<close> and
  \<open>startServer\<close>, whose code is not in the repository. Each was given \<open>&ready_semaphore\<close>
  and, once constructed, signals it once when it is ready ("signals \<open>readySignal\<close> exactly
  once", "begins listening and signals once ready").
\<close>

definition signal_ready :: "component \<Rightarrow> startup \<Rightarrow> startup option" where
  "signal_ready c s =
     (if c \<in> constructed s \<and> c \<notin> signalled s
      then Some (s\<lparr>ready_semaphore := Suc (ready_semaphore s), signalled := insert c (signalled s)\<rparr>)
      else None)"

text \<open>An interleaving is a list of who moves next; \<open>run\<close> follows it while every move is possible.\<close>

fun step :: "actor \<Rightarrow> startup \<Rightarrow> startup option" where
  "step Main s = kore_step s"
| "step (Ready c) s = signal_ready c s"

fun run :: "actor list \<Rightarrow> startup \<Rightarrow> startup option" where
  "run [] s = Some s"
| "run (a # as) s = (case step a s of None \<Rightarrow> None | Some s' \<Rightarrow> run as s')"

text \<open>
  What holds at each position of the main thread, under every interleaving: which
  components exist, which must have signalled, and how many signals are still uncollected.
\<close>

definition startup_inv :: "startup \<Rightarrow> bool" where
  "startup_inv s =
     (pc s \<le> 13
      \<and> (BackendRunner \<in> constructed s) = (0 < pc s)
      \<and> (FrontendRunner \<in> constructed s) = (4 < pc s)
      \<and> (InspectorClient \<in> constructed s) = (7 < pc s)
      \<and> (Server \<in> constructed s) = (12 < pc s)
      \<and> (BackendRunner \<in> signalled s \<longrightarrow> 0 < pc s)
      \<and> (FrontendRunner \<in> signalled s \<longrightarrow> 4 < pc s)
      \<and> (InspectorClient \<in> signalled s \<longrightarrow> 7 < pc s)
      \<and> (Server \<in> signalled s \<longrightarrow> 12 < pc s)
      \<and> (2 < pc s \<longrightarrow> BackendRunner \<in> signalled s)
      \<and> (5 < pc s \<longrightarrow> FrontendRunner \<in> signalled s)
      \<and> (8 < pc s \<longrightarrow> InspectorClient \<in> signalled s)
      \<and> ready_semaphore s
          = of_bool (BackendRunner \<in> signalled s \<and> pc s \<le> 2)
            + of_bool (FrontendRunner \<in> signalled s \<and> pc s \<le> 5)
            + of_bool (InspectorClient \<in> signalled s \<and> pc s \<le> 8)
            + of_bool (Server \<in> signalled s))"

text \<open>
  One interleaving that takes the main thread into its loop: every component signals as
  soon as it is constructed, except the server, which has not signalled yet.
\<close>

definition demo_schedule :: "actor list" where
  "demo_schedule =
     [Main, Main, Ready BackendRunner, Main,
      Main, Main, Ready FrontendRunner, Main,
      Main, Main, Ready InspectorClient, Main,
      Main, Main, Main, Main, Main]"

subsection \<open>A sample environment\<close>

text \<open>
  A concrete engine and world, on which the theorems below are instantiated: context
  \<open>i\<close> belongs to runner \<open>i\<close>, the frontend is runner 0 and the backend runner 1 (the
  order of the two \<open>push_back\<close> calls), only the backend context has a session, the only
  file is \<open>a\<close> with content \<open>1\<close>, the undefined value converts to \<open>und\<close> and the
  conversion of every other value that is not a string throws.
\<close>

definition demo_engine :: engine where
  "demo_engine =
     \<lparr>JS_ToString = (\<lambda>v. case v of Undefined \<Rightarrow> Some [0x75, 0x6E, 0x64] | _ \<Rightarrow> None),
      WriteUtf8 = map ucast,
      ReadFile = (\<lambda>p. if p = [0x61] then Some [0x31] else None),
      FromContext = (\<lambda>c. c),
      SessionFromContext = (\<lambda>c. if c = 1 then Some 7 else None),
      unchecked_String = (\<lambda>v. []),
      kMaxLength = 268435440,
      stack_garbage = (\<lambda>i. 0xCC)\<rparr>"

definition demo_world :: world where
  "demo_world = \<lparr>task_runners = [0, 1], backend_task_runner = Some 1, fwrite_returns = [], trace = []\<rparr>"


subsection \<open>Basic facts about the trace\<close>

lemma trace_emit [simp]: "trace (emit e w) = trace w @ [e]"
  by (simp add: emit_def)

lemma task_runners_emit [simp]: "task_runners (emit e w) = task_runners w"
  by (simp add: emit_def)

lemma backend_emit [simp]: "backend_task_runner (emit e w) = backend_task_runner w"
  by (simp add: emit_def)

lemma fwrite_returns_emit [simp]: "fwrite_returns (emit e w) = fwrite_returns w"
  by (simp add: emit_def)

lemma trace_Terminate_loop: "trace (Terminate_loop rs w) = trace w @ shutdown_events rs"
  by (induction rs arbitrary: w) simp_all

lemma task_runners_Terminate_loop: "task_runners (Terminate_loop rs w) = task_runners w"
  by (induction rs arbitrary: w) simp_all

lemma backend_Terminate_loop:
  "backend_task_runner (Terminate_loop rs w) = backend_task_runner w"
  by (induction rs arbitrary: w) simp_all

lemma fwrite_returns_Terminate_loop: "fwrite_returns (Terminate_loop rs w) = fwrite_returns w"
  by (induction rs arbitrary: w) simp_all

lemma trace_Terminate [simp]:
  "trace (Terminate w) = trace w @ shutdown_events (task_runners w)"
  by (simp add: Terminate_def trace_Terminate_loop)

lemma task_runners_Terminate [simp]: "task_runners (Terminate w) = []"
  by (simp add: Terminate_def)

lemma backend_Terminate [simp]: "backend_task_runner (Terminate w) = backend_task_runner w"
  by (simp add: Terminate_def backend_Terminate_loop)

lemma fwrite_returns_Terminate [simp]: "fwrite_returns (Terminate w) = fwrite_returns w"
  by (simp add: Terminate_def fwrite_returns_Terminate_loop)

lemma trace_Exit [simp]:
  "trace (Exit w) = trace w @ FflushStdout # FflushStderr # shutdown_events (task_runners w)"
  by (simp add: Exit_def)

lemma task_runners_Exit [simp]: "task_runners (Exit w) = []"
  by (simp add: Exit_def)

lemma backend_Exit [simp]: "backend_task_runner (Exit w) = backend_task_runner w"
  by (simp add: Exit_def)

lemma fwrite_returns_Exit [simp]: "fwrite_returns (Exit w) = fwrite_returns w"
  by (simp add: Exit_def)

subsection \<open>Shutdown is idempotent on the runner list\<close>

text \<open>
  Claim C10. The first \<open>Terminate()\<close> calls \<open>Terminate\<close> and then \<open>Join\<close> on each runner of
  \<open>task_runners\<close>, in order (on the sample world: runner 0, then runner 1), and leaves
  \<open>task_runners\<close> empty. So a second \<open>Terminate()\<close> adds nothing to the trace, and a second
  \<open>Exit()\<close> adds the two flushes only: no further \<open>Terminate\<close> or \<open>Join\<close> reaches any
  runner.
\<close>

theorem Terminate_idempotent:
  "trace (Terminate w) = trace w @ shutdown_events (task_runners w)
   \<and> trace (Terminate demo_world)
       = [RunnerTerminate 0, RunnerJoin 0, RunnerTerminate 1, RunnerJoin 1]
   \<and> task_runners (Terminate w) = []
   \<and> trace (Terminate (Terminate w)) = trace (Terminate w)
   \<and> trace (Exit (Terminate w)) = trace (Terminate w) @ [FflushStdout, FflushStderr]
   \<and> trace (Exit (Exit w)) = trace (Exit w) @ [FflushStdout, FflushStderr]
   \<and> filter is_runner_event (trace (Exit (Exit w))) = filter is_runner_event (trace (Exit w))"
  by (simp add: demo_world_def)

lemma ToVector_id [simp]: "ToVector s = s"
  by (simp add: ToVector_def String_Write_def)

subsection \<open>quit\<close>

text \<open>
  Claim C2, as the code has it. \<open>quit()\<close> flushes \<open>stdout\<close> and \<open>stderr\<close>, then calls
  \<open>Terminate\<close> and \<open>Join\<close> on each known runner in turn, so that the \<open>Join\<close> of one runner
  comes before the \<open>Terminate\<close> of the next, empties the runner list and returns to its
  caller: no call that ends the process is among the calls it makes.
\<close>

theorem Quit_orderly_shutdown:
  "trace (Quit info w) = trace w @ FflushStdout # FflushStderr # shutdown_events (task_runners w)
   \<and> shutdown_events [r1, r2] = [RunnerTerminate r1, RunnerJoin r1, RunnerTerminate r2, RunnerJoin r2]
   \<and> task_runners (Quit info w) = []
   \<and> ExitProcess \<notin> set (shutdown_events (task_runners w))"
proof -
  have "ExitProcess \<notin> set (shutdown_events rs)" for rs
    by (induction rs) simp_all
  then show ?thesis by (simp add: Quit_def)
qed

text \<open>
  The claim as written ends with the process exiting. On two runners the calls \<open>quit()\<close>
  makes are the two flushes and the two \<open>Terminate\<close>/\<open>Join\<close> pairs, and nothing else.
\<close>

theorem Quit_exits_counterexample:
  "trace (Quit \<lparr>args = [], GetCurrentContext = 0\<rparr> demo_world)
     = [FflushStdout, FflushStderr, RunnerTerminate 0, RunnerJoin 0, RunnerTerminate 1, RunnerJoin 1]
   \<and> ExitProcess \<notin> set (trace (Quit \<lparr>args = [], GetCurrentContext = 0\<rparr> demo_world))"
  by (simp add: Quit_def demo_world_def)

subsection \<open>setTimeout\<close>

text \<open>
  Claim C3. \<open>setTimeout(f, 0)\<close> with a function \<open>f\<close> does nothing but append a
  \<open>SetTimeoutTask\<close> for \<open>f\<close> to the runner of the calling context, and
  \<open>setTimeout(s, 0)\<close> with a string \<open>s\<close> nothing but append an \<open>ExecuteStringTask\<close> for
  \<open>s\<close> to that runner: no task is run by the call itself. With an argument count other
  than two, a delay that is not a number or is not zero, or a target that is neither a
  function nor a string, the call prints its error and runs \<open>Exit()\<close>: both streams are
  flushed, every runner is terminated and joined, and the runner list is left empty.
\<close>

theorem SetTimeout_defers_or_shuts_down:
  "(args info = [FunctionValue f, Number d] \<and> \<not> double_ne_zero d \<longrightarrow>
      SetTimeout e info w
        = emit (Append (FromContext e (GetCurrentContext info)) (SetTimeoutTask f)) w)
   \<and> (args info = [String s, Number d] \<and> \<not> double_ne_zero d \<longrightarrow>
      SetTimeout e info w
        = emit (Append (FromContext e (GetCurrentContext info)) (ExecuteStringTask s)) w)
   \<and> (length (args info) \<noteq> 2
        \<or> \<not> IsNumber (arg info 1)
        \<or> (\<exists>d. arg info 1 = Number d \<and> double_ne_zero d)
        \<or> (\<not> IsFunction (arg info 0) \<and> \<not> IsString (arg info 0)) \<longrightarrow>
      (\<exists>rest. trace (SetTimeout e info w)
         = trace w
           @ FprintfStderr ''Internal error: only setTimeout(function, 0) is supported.''
           # FflushStdout # FflushStderr # shutdown_events (task_runners w) @ rest)
      \<and> task_runners (SetTimeout e info w) = [])"
proof (intro conjI impI)
  assume "args info = [FunctionValue f, Number d] \<and> \<not> double_ne_zero d"
  then show "SetTimeout e info w
        = emit (Append (FromContext e (GetCurrentContext info)) (SetTimeoutTask f)) w"
    by (simp add: SetTimeout_def SetTimeout_rejects_def Length_def arg_def)
next
  assume "args info = [String s, Number d] \<and> \<not> double_ne_zero d"
  then show "SetTimeout e info w
        = emit (Append (FromContext e (GetCurrentContext info)) (ExecuteStringTask s)) w"
    by (simp add: SetTimeout_def SetTimeout_rejects_def Length_def arg_def As_String_def)
next
  assume a: "length (args info) \<noteq> 2
        \<or> \<not> IsNumber (arg info 1)
        \<or> (\<exists>d. arg info 1 = Number d \<and> double_ne_zero d)
        \<or> (\<not> IsFunction (arg info 0) \<and> \<not> IsString (arg info 0))"
  then have r: "SetTimeout_rejects info"
    by (auto simp add: SetTimeout_rejects_def Length_def)
  show "\<exists>rest. trace (SetTimeout e info w)
         = trace w
           @ FprintfStderr ''Internal error: only setTimeout(function, 0) is supported.''
           # FflushStdout # FflushStderr # shutdown_events (task_runners w) @ rest"
    using r by (cases "arg info 0") (simp_all add: SetTimeout_def)
  show "task_runners (SetTimeout e info w) = []"
    using r by (cases "arg info 0") (simp_all add: SetTimeout_def)
qed

theorem SetTimeout_defers_or_shuts_down_witness:
  "SetTimeout demo_engine \<lparr>args = [FunctionValue 3, Number 0], GetCurrentContext = 1\<rparr> demo_world
     = emit (Append 1 (SetTimeoutTask 3)) demo_world
   \<and> SetTimeout demo_engine \<lparr>args = [String [0x31], Number 0x8000000000000000], GetCurrentContext = 0\<rparr> demo_world
     = emit (Append 0 (ExecuteStringTask [0x31])) demo_world
   \<and> task_runners (SetTimeout demo_engine
        \<lparr>args = [FunctionValue 3, Number 0x3FF0000000000000], GetCurrentContext = 1\<rparr> demo_world) = []"
  using SetTimeout_defers_or_shuts_down
          [where info = "\<lparr>args = [FunctionValue 3, Number 0], GetCurrentContext = 1\<rparr>"
             and f = 3 and d = 0 and e = demo_engine and w = demo_world]
        SetTimeout_defers_or_shuts_down
          [where info = "\<lparr>args = [String [0x31], Number 0x8000000000000000], GetCurrentContext = 0\<rparr>"
             and s = "[0x31]" and d = "0x8000000000000000" and e = demo_engine and w = demo_world]
        SetTimeout_defers_or_shuts_down
          [where info = "\<lparr>args = [FunctionValue 3, Number 0x3FF0000000000000], GetCurrentContext = 1\<rparr>"
             and e = demo_engine and w = demo_world]
  by (simp add: double_ne_zero_def arg_def demo_engine_def)

subsection \<open>load\<close>

text \<open>
  Claim C5. \<open>load(path)\<close> with one string argument reads the file named by the UTF-8
  bytes of \<open>path\<close>. When the file does not exist, the call throws the script exception
  \<open>Error loading file\<close> and returns; when it exists, the call runs an
  \<open>ExecuteStringTask\<close> over the content there and then, in the calling context, and
  appends nothing to any runner.
\<close>

theorem Load_missing_or_inline:
  "args info = [String p] \<longrightarrow>
     (ReadFile e (c_str (WriteUtf8 e p)) = None \<longrightarrow>
        Load e info w
          = emit (ThrowException ''Error loading file'')
              (emit (ReadFileCall (c_str (WriteUtf8 e p))) w))
     \<and> (ReadFile e (c_str (WriteUtf8 e p)) = Some content \<longrightarrow>
        Load e info w
          = emit (RunTask (GetCurrentContext info) (ExecuteStringTask_chars content))
              (emit (ReadFileCall (c_str (WriteUtf8 e p))) w))"
  by (simp add: Load_def Length_def arg_def Utf8Value_def Value_ToString_def)

theorem Load_missing_or_inline_witness:
  "Load demo_engine \<lparr>args = [String [0x62]], GetCurrentContext = 0\<rparr> demo_world
     = emit (ThrowException ''Error loading file'') (emit (ReadFileCall [0x62]) demo_world)
   \<and> Load demo_engine \<lparr>args = [String [0x61]], GetCurrentContext = 0\<rparr> demo_world
     = emit (RunTask 0 (ExecuteStringTask_chars [0x31])) (emit (ReadFileCall [0x61]) demo_world)"
  using Load_missing_or_inline
          [where info = "\<lparr>args = [String [0x62]], GetCurrentContext = 0\<rparr>"
             and p = "[0x62]" and e = demo_engine and w = demo_world]
        Load_missing_or_inline
          [where info = "\<lparr>args = [String [0x61]], GetCurrentContext = 0\<rparr>"
             and p = "[0x61]" and e = demo_engine and w = demo_world and content = "[0x31]"]
  by (simp add: demo_engine_def c_str_def)

subsection \<open>Dispatching a protocol message\<close>

text \<open>
  Claim C6. When \<open>SendMessageToBackendTask::Run\<close> finds no session for its context, the
  \<open>CHECK\<close> ends the process; when it finds one, it hands that session the task's text,
  all of it, in one \<open>dispatchProtocolMessage\<close> call.
\<close>

theorem SendMessageToBackendTask_Run_session:
  "(SessionFromContext e global_context = None \<longrightarrow>
      SendMessageToBackendTask_Run e message global_context w = Inl CheckFailed)
   \<and> (SessionFromContext e global_context = Some session \<longrightarrow>
      SendMessageToBackendTask_Run e message global_context w
        = Inr (emit (DispatchProtocolMessage session (StringView8 message [0])) w))"
  by (simp add: SendMessageToBackendTask_Run_def)

theorem SendMessageToBackendTask_Run_session_witness:
  "SendMessageToBackendTask_Run demo_engine [0x7B, 0x7D] 0 demo_world = Inl CheckFailed
   \<and> SendMessageToBackendTask_Run demo_engine [0x7B, 0x7D] 1 demo_world
       = Inr (emit (DispatchProtocolMessage 7 (StringView8 [0x7B, 0x7D] [0])) demo_world)"
  using SendMessageToBackendTask_Run_session
          [where e = demo_engine and global_context = 0 and message = "[0x7B, 0x7D]" and w = demo_world]
        SendMessageToBackendTask_Run_session
          [where e = demo_engine and global_context = 1 and session = 7
             and message = "[0x7B, 0x7D]" and w = demo_world]
  by (simp add: demo_engine_def)

subsection \<open>Receiving a message from the transport\<close>





subsection \<open>A failed argument check does not end the call\<close>

text \<open>
  Claim C9. When the argument check of \<open>setlocale\<close>, \<open>load\<close> or \<open>setTimeout\<close> fails, the
  call prints its error and runs \<open>Exit()\<close>, and after \<open>Exit()\<close> has returned it goes on as
  if the check had passed: \<open>setlocale\<close> still calls the C library with the conversion of
  its first argument (the undefined value when there is none), \<open>load\<close> still reads the file
  so named and throws or runs its content, and \<open>setTimeout\<close> still appends a task to the
  runner of the calling context.
\<close>

theorem failed_validation_continues:
  "(Length info \<noteq> 1 \<or> \<not> IsString (arg info 0) \<longrightarrow>
      trace (SetLocale e info w)
        = trace w
          @ FprintfStderr ''Internal error: setlocale get one string argument.''
          # FflushStdout # FflushStderr # shutdown_events (task_runners w)
          @ [SetLocaleNumeric (map_option c_str (Utf8Value e (arg info 0)))])
   \<and> (Length info \<noteq> 1 \<or> \<not> IsString (arg info 0) \<longrightarrow>
      trace (Load e info w)
        = trace w
          @ FprintfStderr ''Internal error: load gets one string argument.''
          # FflushStdout # FflushStderr # shutdown_events (task_runners w)
          @ [ReadFileCall (c_str (case Utf8Value e (arg info 0) of None \<Rightarrow> [] | Some bs \<Rightarrow> bs)),
             case ReadFile e (c_str (case Utf8Value e (arg info 0) of None \<Rightarrow> [] | Some bs \<Rightarrow> bs)) of
               None \<Rightarrow> ThrowException ''Error loading file''
             | Some chars \<Rightarrow> RunTask (GetCurrentContext info) (ExecuteStringTask_chars chars)])
   \<and> (SetTimeout_rejects info \<longrightarrow>
      trace (SetTimeout e info w)
        = trace w
          @ FprintfStderr ''Internal error: only setTimeout(function, 0) is supported.''
          # FflushStdout # FflushStderr # shutdown_events (task_runners w)
          @ [Append (FromContext e (GetCurrentContext info))
               (case arg info 0 of
                  FunctionValue f \<Rightarrow> SetTimeoutTask f
                | v \<Rightarrow> ExecuteStringTask (As_String e v))])"
proof (intro conjI impI)
  assume "Length info \<noteq> 1 \<or> \<not> IsString (arg info 0)"
  then show "trace (SetLocale e info w)
        = trace w
          @ FprintfStderr ''Internal error: setlocale get one string argument.''
          # FflushStdout # FflushStderr # shutdown_events (task_runners w)
          @ [SetLocaleNumeric (map_option c_str (Utf8Value e (arg info 0)))]"
    by (simp add: SetLocale_def)
next
  assume "Length info \<noteq> 1 \<or> \<not> IsString (arg info 0)"
  then show "trace (Load e info w)
        = trace w
          @ FprintfStderr ''Internal error: load gets one string argument.''
          # FflushStdout # FflushStderr # shutdown_events (task_runners w)
          @ [ReadFileCall (c_str (case Utf8Value e (arg info 0) of None \<Rightarrow> [] | Some bs \<Rightarrow> bs)),
             case ReadFile e (c_str (case Utf8Value e (arg info 0) of None \<Rightarrow> [] | Some bs \<Rightarrow> bs)) of
               None \<Rightarrow> ThrowException ''Error loading file''
             | Some chars \<Rightarrow> RunTask (GetCurrentContext info) (ExecuteStringTask_chars chars)]"
    by (simp add: Load_def Let_def split: option.split)
next
  assume "SetTimeout_rejects info"
  then show "trace (SetTimeout e info w)
        = trace w
          @ FprintfStderr ''Internal error: only setTimeout(function, 0) is supported.''
          # FflushStdout # FflushStderr # shutdown_events (task_runners w)
          @ [Append (FromContext e (GetCurrentContext info))
               (case arg info 0 of
                  FunctionValue f \<Rightarrow> SetTimeoutTask f
                | v \<Rightarrow> ExecuteStringTask (As_String e v))]"
    by (cases "arg info 0") (simp_all add: SetTimeout_def)
qed

theorem failed_validation_continues_witness:
  "trace (SetLocale demo_engine \<lparr>args = [], GetCurrentContext = 0\<rparr> demo_world)
     = [FprintfStderr ''Internal error: setlocale get one string argument.'',
        FflushStdout, FflushStderr,
        RunnerTerminate 0, RunnerJoin 0, RunnerTerminate 1, RunnerJoin 1,
        SetLocaleNumeric (Some [0x75, 0x6E, 0x64])]
   \<and> trace (Load demo_engine \<lparr>args = [Number 0], GetCurrentContext = 0\<rparr> demo_world)
     = [FprintfStderr ''Internal error: load gets one string argument.'',
        FflushStdout, FflushStderr,
        RunnerTerminate 0, RunnerJoin 0, RunnerTerminate 1, RunnerJoin 1,
        ReadFileCall [], ThrowException ''Error loading file'']
   \<and> trace (SetTimeout demo_engine
        \<lparr>args = [FunctionValue 3, Number 0x3FF0000000000000], GetCurrentContext = 1\<rparr> demo_world)
     = [FprintfStderr ''Internal error: only setTimeout(function, 0) is supported.'',
        FflushStdout, FflushStderr,
        RunnerTerminate 0, RunnerJoin 0, RunnerTerminate 1, RunnerJoin 1,
        Append 1 (SetTimeoutTask 3)]"
  using failed_validation_continues
          [where info = "\<lparr>args = [], GetCurrentContext = 0\<rparr>"
             and e = demo_engine and w = demo_world]
        failed_validation_continues
          [where info = "\<lparr>args = [Number 0], GetCurrentContext = 0\<rparr>"
             and e = demo_engine and w = demo_world]
        failed_validation_continues
          [where info = "\<lparr>args = [FunctionValue 3, Number 0x3FF0000000000000], GetCurrentContext = 1\<rparr>"
             and e = demo_engine and w = demo_world]
  by (simp add: Length_def arg_def SetTimeout_rejects_def double_ne_zero_def
        Utf8Value_def Value_ToString_def c_str_def demo_engine_def demo_world_def)

subsection \<open>Sending a message to the frontend\<close>

lemma narrow_loop_overrun:
  "i \<le> length msg \<Longrightarrow> length msg < i + length cs \<Longrightarrow>
     narrow_loop cs i msg = Inl StackBufferOverrun"
proof (induction cs arbitrary: i msg)
  case Nil
  then show ?case by simp
next
  case (Cons c cs)
  show ?case
  proof (cases "i < length msg")
    case True
    then have "narrow_loop (c # cs) i msg = narrow_loop cs (Suc i) (msg[i := ucast c])"
      by (simp add: store_def)
    also have "\<dots> = Inl StackBufferOverrun"
      using Cons.prems True by (intro Cons.IH) simp_all
    finally show ?thesis .
  next
    case False
    then show ?thesis by (simp add: store_def)
  qed
qed

lemma narrow_loop_fits:
  "i + length cs \<le> length msg \<Longrightarrow>
     narrow_loop cs i msg = Inr (take i msg @ map ucast cs @ drop (i + length cs) msg)"
proof (induction cs arbitrary: i msg)
  case Nil
  then show ?case by simp
next
  case (Cons c cs)
  then have lt: "i < length msg" by simp
  then have "narrow_loop (c # cs) i msg = narrow_loop cs (Suc i) (msg[i := ucast c])"
    by (simp add: store_def)
  also have "\<dots> = Inr (take (Suc i) (msg[i := ucast c]) @ map ucast cs
                        @ drop (Suc i + length cs) (msg[i := ucast c]))"
    using Cons.prems by (intro Cons.IH) simp
  also have "take (Suc i) (msg[i := ucast c]) = take i msg @ [ucast c]"
    using lt by (simp add: take_Suc_conv_app_nth)
  also have "drop (Suc i + length cs) (msg[i := ucast c]) = drop (i + length (c # cs)) msg"
    by simp
  finally show ?case by simp
qed

lemma length_msg_array [simp]: "length (msg_array e) = 2048"
  by (simp add: msg_array_def)

lemma c_str_terminated: "c_str (xs @ 0 # ys) = c_str xs"
  by (induction xs) (simp_all add: c_str_def)

lemma c_str_read_terminated: "c_str_read (xs @ 0 # ys) = Inr (c_str xs)"
  by (simp add: c_str_read_def c_str_terminated)

lemma SendMessageToFrontend_16_overrun:
  assumes "2048 \<le> length ws" and "length ws \<le> kMaxLength e"
  shows "SendMessageToFrontend e (StringView16 ws) w = Inl StackBufferOverrun"
proof (cases "length ws = 2048")
  case True
  then have "narrow_loop ws 0 (msg_array e) = Inr (map ucast ws)"
    by (simp add: narrow_loop_fits)
  then show ?thesis
    using assms True by (simp add: SendMessageToFrontend_def ToString_def store_def)
next
  case False
  then have "narrow_loop ws 0 (msg_array e) = Inl StackBufferOverrun"
    using assms by (intro narrow_loop_overrun) simp_all
  then show ?thesis
    using assms by (simp add: SendMessageToFrontend_def ToString_def)
qed

lemma SendMessageToFrontend_16_fits:
  assumes "length ws < 2048" and "length ws \<le> kMaxLength e"
  shows "SendMessageToFrontend e (StringView16 ws) w
           = Inr (emit (SendMessage (c_str (map ucast ws))) w)"
proof -
  have "narrow_loop ws 0 (msg_array e)
          = Inr (map ucast ws @ drop (length ws) (msg_array e))"
    using assms by (simp add: narrow_loop_fits)
  moreover have "drop (length ws) (msg_array e)
          = msg_array e ! length ws # drop (Suc (length ws)) (msg_array e)"
    using assms by (simp add: Cons_nth_drop_Suc)
  then have "store (map ucast ws @ drop (length ws) (msg_array e)) (length ws) 0
          = Inr (map ucast ws @ 0 # drop (Suc (length ws)) (msg_array e))"
    by (simp add: store_def list_update_append)
  ultimately show ?thesis
    using assms by (simp add: SendMessageToFrontend_def ToString_def sendMessage_def c_str_read_terminated)
qed

lemma SendMessageToFrontend_8:
  assumes "length cs \<le> kMaxLength e"
  shows "SendMessageToFrontend e (StringView8 cs (0 # beyond)) w
           = Inr (emit (SendMessage (c_str cs)) w)"
  using assms by (simp add: SendMessageToFrontend_def ToString_def sendMessage_def c_str_read_terminated)

text \<open>
  Claim C1 says that \<open>SendMessageToFrontend\<close> hands every message to \<open>sendMessage\<close> whole,
  whatever its length and encoding. The code copies a 16-bit message into
  \<open>char msg[2048]\<close> without a bounds check, narrowing each character to its low byte. A
  16-bit message of 2048 characters \<open>a\<close> fills the array, and the terminating store
  \<open>msg[2048] = 0\<close> overruns it: nothing is sent. The three-character 16-bit message
  \<open>A\<close>, U+0100, \<open>B\<close> fits, but the low byte of its second character is 0, so the transport
  receives the one character \<open>A\<close>.
\<close>

theorem SendMessageToFrontend_fixed_buffer:
  "SendMessageToFrontend demo_engine (StringView16 (replicate 2048 0x61)) demo_world
     = Inl StackBufferOverrun
   \<and> SendMessageToFrontend demo_engine (StringView16 [0x41, 0x100, 0x42]) demo_world
     = Inr (emit (SendMessage [0x41]) demo_world)"
  by (simp add: SendMessageToFrontend_16_overrun SendMessageToFrontend_16_fits
        demo_engine_def c_str_def)

subsection \<open>print\<close>

lemma stringify_Some:
  "stringify e a = Some s \<Longrightarrow>
     \<exists>str_obj. Value_ToString e (case a of Symbol name \<Rightarrow> name | _ \<Rightarrow> a) = Some str_obj
        \<and> WriteUtf8 e str_obj = s"
  by (auto simp add: stringify_def Utf8Value_def)

lemma stringify_None:
  "stringify e a = None \<Longrightarrow>
     Value_ToString e (case a of Symbol name \<Rightarrow> name | _ \<Rightarrow> a) = None"
  by (simp add: stringify_def Utf8Value_def)

lemma fwrite_facts:
  assumes "fwrite bs w = (n, w2)"
  shows "trace w2 = trace w @ [Fwrite (take n bs)]"
    and "task_runners w2 = task_runners w"
    and "fwrite_returns w2 = tl (fwrite_returns w)"
    and "n = (case fwrite_returns w of [] \<Rightarrow> length bs | r # rs \<Rightarrow> min r (length bs))"
  using assms by (auto simp add: fwrite_def min_def split: list.splits)

text \<open>One iteration of the loop, for an argument that converts.\<close>

lemma Print_loop_Cons:
  assumes "stringify e a = Some s"
  shows "\<exists>n w2. fwrite s (if i \<noteq> 0 then emit (Printf '' '') w else w) = (n, w2)
           \<and> Print_loop e info i (a # as) w
               = Print_loop e info (Suc i) as
                   (if n \<noteq> length s
                    then Quit info (emit (Printf ''Error in fwrite\<newline>'') w2) else w2)"
proof -
  obtain str_obj where so: "Value_ToString e (case a of Symbol name \<Rightarrow> name | _ \<Rightarrow> a) = Some str_obj"
      and wu: "WriteUtf8 e str_obj = s"
    using stringify_Some [OF assms] by blast
  obtain n w2 where fw: "fwrite s (if i \<noteq> 0 then emit (Printf '' '') w else w) = (n, w2)"
    by (cases "fwrite s (if i \<noteq> 0 then emit (Printf '' '') w else w)") blast
  have "Print_loop e info i (a # as) w
               = Print_loop e info (Suc i) as
                   (if n \<noteq> length s
                    then Quit info (emit (Printf ''Error in fwrite\<newline>'') w2) else w2)"
    using so wu fw by (simp add: Let_def)
  with fw show ?thesis by blast
qed

lemma Print_loop_full:
  "map (stringify e) as = map Some strs \<Longrightarrow> fwrite_returns w = [] \<Longrightarrow>
     \<exists>w'. Print_loop e info i as w = Inr w'
        \<and> trace w' = trace w @ (if i \<noteq> 0 then concat (map (\<lambda>t. [Printf '' '', Fwrite t]) strs)
                                 else spaced strs)"
proof (induction as arbitrary: i w strs)
  case Nil
  then show ?case by simp
next
  case (Cons a as)
  then obtain s strs' where strs: "strs = s # strs'" and sa: "stringify e a = Some s"
      and rest: "map (stringify e) as = map Some strs'"
    by (cases strs) auto
  obtain n w2 where fw: "fwrite s (if i \<noteq> 0 then emit (Printf '' '') w else w) = (n, w2)"
      and step: "Print_loop e info i (a # as) w
               = Print_loop e info (Suc i) as
                   (if n \<noteq> length s
                    then Quit info (emit (Printf ''Error in fwrite\<newline>'') w2) else w2)"
    using Print_loop_Cons [OF sa] by blast
  have n: "n = length s"
    using fwrite_facts(4) [OF fw] Cons.prems(2) by simp
  have tr: "trace w2 = trace w @ (if i \<noteq> 0 then [Printf '' '', Fwrite s] else [Fwrite s])"
    using fwrite_facts(1) [OF fw] n by simp
  have fr: "fwrite_returns w2 = []"
    using fwrite_facts(3) [OF fw] Cons.prems(2) by simp
  obtain w' where "Print_loop e info (Suc i) as w2 = Inr w'"
      and "trace w' = trace w2 @ concat (map (\<lambda>t. [Printf '' '', Fwrite t]) strs')"
    using Cons.IH [OF rest fr, of "Suc i"] by auto
  then show ?case
    using step n tr strs by simp
qed

lemma Print_loop_extends:
  "map (stringify e) as = map Some strs \<Longrightarrow>
     \<exists>w' evs. Print_loop e info i as w = Inr w' \<and> trace w' = trace w @ evs"
proof (induction as arbitrary: i w strs)
  case Nil
  then show ?case by simp
next
  case (Cons a as)
  then obtain s strs' where strs: "strs = s # strs'" and sa: "stringify e a = Some s"
      and rest: "map (stringify e) as = map Some strs'"
    by (cases strs) auto
  obtain n w2 where fw: "fwrite s (if i \<noteq> 0 then emit (Printf '' '') w else w) = (n, w2)"
      and step: "Print_loop e info i (a # as) w
               = Print_loop e info (Suc i) as
                   (if n \<noteq> length s
                    then Quit info (emit (Printf ''Error in fwrite\<newline>'') w2) else w2)"
    (is "_ = Print_loop e info (Suc i) as ?w3")
    using Print_loop_Cons [OF sa] by blast
  have "\<exists>evs. trace ?w3 = trace w @ evs"
    using fwrite_facts(1) [OF fw] by (simp add: Quit_def)
  then obtain evs3 where t3: "trace ?w3 = trace w @ evs3" by blast
  obtain w' evs where "Print_loop e info (Suc i) as ?w3 = Inr w'"
      and "trace w' = trace ?w3 @ evs"
    using Cons.IH [OF rest, of "Suc i" ?w3] by blast
  then show ?case
    using step t3 by simp
qed

lemma Print_loop_short:
  "map (stringify e) as = map Some strs \<Longrightarrow> k < length strs \<Longrightarrow>
   k < length (fwrite_returns w) \<Longrightarrow> fwrite_returns w ! k < length (strs ! k) \<Longrightarrow>
     \<exists>w' pre post. Print_loop e info i as w = Inr w'
        \<and> trace w' = trace w @ pre @ Printf ''Error in fwrite\<newline>''
              # FflushStdout # FflushStderr # shutdown_events (task_runners w) @ post"
proof (induction as arbitrary: i w strs k)
  case Nil
  then show ?case by simp
next
  case (Cons a as)
  then obtain s strs' where strs: "strs = s # strs'" and sa: "stringify e a = Some s"
      and rest: "map (stringify e) as = map Some strs'"
    by (cases strs) auto
  obtain r rs where rs: "fwrite_returns w = r # rs"
    using Cons.prems(3) by (cases "fwrite_returns w") auto
  obtain n w2 where fw: "fwrite s (if i \<noteq> 0 then emit (Printf '' '') w else w) = (n, w2)"
      and step: "Print_loop e info i (a # as) w
               = Print_loop e info (Suc i) as
                   (if n \<noteq> length s
                    then Quit info (emit (Printf ''Error in fwrite\<newline>'') w2) else w2)"
    (is "_ = Print_loop e info (Suc i) as ?w3")
    using Print_loop_Cons [OF sa] by blast
  have n: "n = min r (length s)"
    using fwrite_facts(4) [OF fw] rs by simp
  obtain pre2 where t2: "trace w2 = trace w @ pre2"
    using fwrite_facts(1) [OF fw] by (cases "i \<noteq> 0") simp_all
  have r2: "task_runners w2 = task_runners w"
    using fwrite_facts(2) [OF fw] by simp
  have f2: "fwrite_returns w2 = rs"
    using fwrite_facts(3) [OF fw] rs by simp
  show ?case
  proof (cases "r < length s")
    case True
    then have w3: "?w3 = Quit info (emit (Printf ''Error in fwrite\<newline>'') w2)"
      using n by simp
    obtain w' evs where "Print_loop e info (Suc i) as ?w3 = Inr w'"
        and "trace w' = trace ?w3 @ evs"
      using Print_loop_extends [OF rest, of info "Suc i" ?w3] by blast
    then have "Print_loop e info i (a # as) w = Inr w'
        \<and> trace w' = trace w @ pre2 @ Printf ''Error in fwrite\<newline>''
              # FflushStdout # FflushStderr # shutdown_events (task_runners w) @ evs"
      using step w3 t2 r2 by (simp add: Quit_def)
    then show ?thesis by blast
  next
    case False
    then have w3: "?w3 = w2"
      using n by simp
    from False Cons.prems(4) strs rs obtain k' where k: "k = Suc k'"
      by (cases k) auto
    have "\<exists>w' pre post. Print_loop e info (Suc i) as w2 = Inr w'
        \<and> trace w' = trace w2 @ pre @ Printf ''Error in fwrite\<newline>''
              # FflushStdout # FflushStderr # shutdown_events (task_runners w2) @ post"
      using Cons.prems k strs rs f2 by (intro Cons.IH [OF rest, of k']) simp_all
    then obtain w' pre post where "Print_loop e info (Suc i) as w2 = Inr w'"
        and "trace w' = trace w2 @ pre @ Printf ''Error in fwrite\<newline>''
              # FflushStdout # FflushStderr # shutdown_events (task_runners w2) @ post"
      by blast
    then have "Print_loop e info i (a # as) w = Inr w'
        \<and> trace w' = trace w @ (pre2 @ pre) @ Printf ''Error in fwrite\<newline>''
              # FflushStdout # FflushStderr # shutdown_events (task_runners w) @ post"
      using step w3 t2 r2 by simp
    then show ?thesis by blast
  qed
qed

lemma Print_loop_rethrow:
  "map (stringify e) as = map Some strs \<Longrightarrow> stringify e a = None \<Longrightarrow>
     \<exists>w' pre. Print_loop e info i (as @ a # bs) w = Inl w' \<and> trace w' = trace w @ pre @ [ReThrow]"
proof (induction as arbitrary: i w strs)
  case Nil
  have "Print_loop e info i (a # bs) w = Inl (emit ReThrow (if i \<noteq> 0 then emit (Printf '' '') w else w))"
    using stringify_None [OF Nil.prems(2)] by (simp add: Let_def)
  moreover have "\<exists>pre. trace (emit ReThrow (if i \<noteq> 0 then emit (Printf '' '') w else w))
                   = trace w @ pre @ [ReThrow]"
    by (cases "i \<noteq> 0") simp_all
  ultimately show ?case by auto
next
  case (Cons c as)
  then obtain s strs' where strs: "strs = s # strs'" and sa: "stringify e c = Some s"
      and rest: "map (stringify e) as = map Some strs'"
    by (cases strs) auto
  obtain n w2 where fw: "fwrite s (if i \<noteq> 0 then emit (Printf '' '') w else w) = (n, w2)"
      and step: "Print_loop e info i (c # (as @ a # bs)) w
               = Print_loop e info (Suc i) (as @ a # bs)
                   (if n \<noteq> length s
                    then Quit info (emit (Printf ''Error in fwrite\<newline>'') w2) else w2)"
    (is "_ = Print_loop e info (Suc i) _ ?w3")
    using Print_loop_Cons [OF sa] by blast
  have "\<exists>evs. trace ?w3 = trace w @ evs"
    using fwrite_facts(1) [OF fw] by (simp add: Quit_def)
  then obtain evs3 where t3: "trace ?w3 = trace w @ evs3" by blast
  obtain w' pre where "Print_loop e info (Suc i) (as @ a # bs) ?w3 = Inl w'"
      and "trace w' = trace ?w3 @ pre @ [ReThrow]"
    using Cons.IH [OF rest Cons.prems(2), of "Suc i" ?w3] by blast
  then have "Print_loop e info i ((c # as) @ a # bs) w = Inl w'
      \<and> trace w' = trace w @ (evs3 @ pre) @ [ReThrow]"
    using step t3 by simp
  then show ?case by blast
qed

text \<open>
  Claim C7, as the code has it. When every argument converts to a string and every write
  is complete, \<open>print\<close> writes the converted arguments (a symbol as its name) with one
  space between neighbours, then a newline, and flushes \<open>stdout\<close>. When some argument
  converts and \<open>fwrite\<close> returns less than its length, \<open>print\<close> writes \<open>Error in fwrite\<close>
  and runs \<open>Exit()\<close>. When the conversion of an argument throws, \<open>print\<close> re-throws and
  returns at once: the last thing it does is \<open>ReThrow()\<close>, and neither the newline nor the
  flush follows.
\<close>

theorem Print_writes_or_rethrows:
  "(map (stringify e) (args info) = map Some strs \<and> fwrite_returns w = [] \<longrightarrow>
      trace (Print e info w)
        = trace w @ spaced strs @ [Printf ''\<newline>'', FflushStdout])
   \<and> (map (stringify e) (args info) = map Some strs \<and> k < length strs
        \<and> k < length (fwrite_returns w) \<and> fwrite_returns w ! k < length (strs ! k) \<longrightarrow>
      (\<exists>pre post. trace (Print e info w)
         = trace w @ pre @ Printf ''Error in fwrite\<newline>''
           # FflushStdout # FflushStderr # shutdown_events (task_runners w) @ post))
   \<and> (args info = as @ a # bs \<and> map (stringify e) as = map Some strs
        \<and> stringify e a = None \<longrightarrow>
      (\<exists>pre. trace (Print e info w) = trace w @ pre @ [ReThrow]))"
proof (intro conjI impI)
  assume h: "map (stringify e) (args info) = map Some strs \<and> fwrite_returns w = []"
  then obtain w' where "Print_loop e info 0 (args info) w = Inr w'"
      and "trace w' = trace w @ spaced strs"
    using Print_loop_full [of e "args info" strs w info 0] by auto
  then show "trace (Print e info w)
        = trace w @ spaced strs @ [Printf ''\<newline>'', FflushStdout]"
    by (simp add: Print_def)
next
  assume h: "map (stringify e) (args info) = map Some strs \<and> k < length strs
        \<and> k < length (fwrite_returns w) \<and> fwrite_returns w ! k < length (strs ! k)"
  then obtain w' pre post where "Print_loop e info 0 (args info) w = Inr w'"
      and "trace w' = trace w @ pre @ Printf ''Error in fwrite\<newline>''
              # FflushStdout # FflushStderr # shutdown_events (task_runners w) @ post"
    using Print_loop_short [of e "args info" strs k w info 0] by blast
  then have "trace (Print e info w)
         = trace w @ pre @ Printf ''Error in fwrite\<newline>''
           # FflushStdout # FflushStderr # shutdown_events (task_runners w)
           @ (post @ [Printf ''\<newline>'', FflushStdout])"
    by (simp add: Print_def)
  then show "\<exists>pre post. trace (Print e info w)
         = trace w @ pre @ Printf ''Error in fwrite\<newline>''
           # FflushStdout # FflushStderr # shutdown_events (task_runners w) @ post"
    by blast
next
  assume h: "args info = as @ a # bs \<and> map (stringify e) as = map Some strs
        \<and> stringify e a = None"
  then obtain w' pre where "Print_loop e info 0 (as @ a # bs) w = Inl w'"
      and "trace w' = trace w @ pre @ [ReThrow]"
    using Print_loop_rethrow [of e as strs a info 0 bs w] by blast
  then have "trace (Print e info w) = trace w @ pre @ [ReThrow]"
    using h by (simp add: Print_def)
  then show "\<exists>pre. trace (Print e info w) = trace w @ pre @ [ReThrow]"
    by blast
qed

theorem Print_writes_or_rethrows_witness:
  "trace (Print demo_engine
       \<lparr>args = [String [0x61], Symbol (String [0x62])], GetCurrentContext = 0\<rparr> demo_world)
     = [Fwrite [0x61], Printf '' '', Fwrite [0x62], Printf ''\<newline>'', FflushStdout]
   \<and> (\<exists>pre post. trace (Print demo_engine
          \<lparr>args = [String [0x61, 0x62]], GetCurrentContext = 0\<rparr>
          (demo_world\<lparr>fwrite_returns := [1]\<rparr>))
        = pre @ Printf ''Error in fwrite\<newline>'' # FflushStdout # FflushStderr
          # RunnerTerminate 0 # RunnerJoin 0 # RunnerTerminate 1 # RunnerJoin 1 # post)
   \<and> (\<exists>pre. trace (Print demo_engine
          \<lparr>args = [String [0x61], Object 0, String [0x62]], GetCurrentContext = 0\<rparr> demo_world)
        = pre @ [ReThrow])"
  using Print_writes_or_rethrows
          [where e = demo_engine and w = demo_world and strs = "[[0x61], [0x62]]"
             and info = "\<lparr>args = [String [0x61], Symbol (String [0x62])], GetCurrentContext = 0\<rparr>"]
        Print_writes_or_rethrows
          [where e = demo_engine and w = "demo_world\<lparr>fwrite_returns := [1]\<rparr>"
             and strs = "[[0x61, 0x62]]" and k = 0
             and info = "\<lparr>args = [String [0x61, 0x62]], GetCurrentContext = 0\<rparr>"]
        Print_writes_or_rethrows
          [where e = demo_engine and w = demo_world and strs = "[[0x61]]"
             and as = "[String [0x61]]" and a = "Object 0" and bs = "[String [0x62]]"
             and info = "\<lparr>args = [String [0x61], Object 0, String [0x62]], GetCurrentContext = 0\<rparr>"]
  by (simp add: stringify_def Utf8Value_def Value_ToString_def demo_engine_def demo_world_def)

text \<open>
  The claim as written has the newline and the flush on every call. For
  \<open>print("a", o, "b")\<close> with an object \<open>o\<close> whose conversion throws, the calls made are
  the write of \<open>a\<close>, the separating space, and \<open>ReThrow()\<close>.
\<close>

theorem Print_newline_counterexample:
  "trace (Print demo_engine
       \<lparr>args = [String [0x61], Object 0, String [0x62]], GetCurrentContext = 0\<rparr> demo_world)
     = [Fwrite [0x61], Printf '' '', ReThrow]"
  by (simp add: Print_def Let_def fwrite_def Value_ToString_def demo_engine_def demo_world_def)

subsection \<open>The startup barriers\<close>

lemma startup_inv_init: "startup_inv kore_init"
  by (simp add: startup_inv_def kore_init_def)

lemma pc_cases:
  assumes "pc s \<le> 13"
  shows "pc s = 0 \<or> pc s = 1 \<or> pc s = 2 \<or> pc s = 3 \<or> pc s = 4 \<or> pc s = 5 \<or> pc s = 6
     \<or> pc s = 7 \<or> pc s = 8 \<or> pc s = 9 \<or> pc s = 10 \<or> pc s = 11 \<or> pc s = 12 \<or> pc s = 13"
  using assms by arith

lemma startup_inv_Ready: "startup_inv s \<Longrightarrow> step (Ready c) s = Some s' \<Longrightarrow> startup_inv s'"
proof -
  assume i: "startup_inv s" and st: "step (Ready c) s = Some s'"
  from st have c: "c \<in> constructed s" "c \<notin> signalled s"
    and s': "s' = s\<lparr>ready_semaphore := Suc (ready_semaphore s), signalled := insert c (signalled s)\<rparr>"
    by (auto simp add: signal_ready_def split: if_splits)
  show ?thesis
  proof (cases c)
    case BackendRunner
    with i c have "pc s \<le> 2" "0 < pc s" by (auto simp add: startup_inv_def)
    with i c BackendRunner show ?thesis unfolding s' startup_inv_def by simp
  next
    case FrontendRunner
    with i c have "pc s \<le> 5" "4 < pc s" by (auto simp add: startup_inv_def)
    with i c FrontendRunner show ?thesis unfolding s' startup_inv_def by simp
  next
    case InspectorClient
    with i c have "pc s \<le> 8" "7 < pc s" by (auto simp add: startup_inv_def)
    with i c InspectorClient show ?thesis unfolding s' startup_inv_def by simp
  next
    case Server
    with i c have "12 < pc s" by (auto simp add: startup_inv_def)
    with i c Server show ?thesis unfolding s' startup_inv_def by simp
  qed
qed

lemma startup_inv_Main_0:
  assumes i: "startup_inv s" and p: "pc s = 0" and st: "step Main s = Some s'"
  shows "startup_inv s'"
proof -
  from st p have "s' = s\<lparr>pc := 1, constructed := insert BackendRunner (constructed s)\<rparr>"
    by (auto simp add: kore_step_def kore_def)
  with i p show ?thesis by (simp add: startup_inv_def)
qed

lemma startup_inv_Main_1:
  assumes i: "startup_inv s" and p: "pc s = 1" and st: "step Main s = Some s'"
  shows "startup_inv s'"
proof -
  from st p have "s' = s\<lparr>pc := 2\<rparr>"
    by (auto simp add: kore_step_def kore_def)
  with i p show ?thesis by (simp add: startup_inv_def)
qed

lemma startup_inv_Main_2:
  assumes i: "startup_inv s" and p: "pc s = 2" and st: "step Main s = Some s'"
  shows "startup_inv s'"
proof -
  from st p have "ready_semaphore s \<noteq> 0"
      and "s' = s\<lparr>pc := 3, ready_semaphore := ready_semaphore s - 1\<rparr>"
    by (auto simp add: kore_step_def kore_def split: if_splits)
  with i p show ?thesis by (simp add: startup_inv_def split: if_splits)
qed

lemma startup_inv_Main_3:
  assumes i: "startup_inv s" and p: "pc s = 3" and st: "step Main s = Some s'"
  shows "startup_inv s'"
proof -
  from st p have "s' = s\<lparr>pc := 4\<rparr>"
    by (auto simp add: kore_step_def kore_def)
  with i p show ?thesis by (simp add: startup_inv_def)
qed

lemma startup_inv_Main_4:
  assumes i: "startup_inv s" and p: "pc s = 4" and st: "step Main s = Some s'"
  shows "startup_inv s'"
proof -
  from st p have "s' = s\<lparr>pc := 5, constructed := insert FrontendRunner (constructed s)\<rparr>"
    by (auto simp add: kore_step_def kore_def)
  with i p show ?thesis by (simp add: startup_inv_def)
qed

lemma startup_inv_Main_5:
  assumes i: "startup_inv s" and p: "pc s = 5" and st: "step Main s = Some s'"
  shows "startup_inv s'"
proof -
  from st p have "ready_semaphore s \<noteq> 0"
      and "s' = s\<lparr>pc := 6, ready_semaphore := ready_semaphore s - 1\<rparr>"
    by (auto simp add: kore_step_def kore_def split: if_splits)
  with i p show ?thesis by (simp add: startup_inv_def split: if_splits)
qed

lemma startup_inv_Main_6:
  assumes i: "startup_inv s" and p: "pc s = 6" and st: "step Main s = Some s'"
  shows "startup_inv s'"
proof -
  from st p have "s' = s\<lparr>pc := 7\<rparr>"
    by (auto simp add: kore_step_def kore_def)
  with i p show ?thesis by (simp add: startup_inv_def)
qed

lemma startup_inv_Main_7:
  assumes i: "startup_inv s" and p: "pc s = 7" and st: "step Main s = Some s'"
  shows "startup_inv s'"
proof -
  from st p have "s' = s\<lparr>pc := 8, constructed := insert InspectorClient (constructed s)\<rparr>"
    by (auto simp add: kore_step_def kore_def)
  with i p show ?thesis by (simp add: startup_inv_def)
qed

lemma startup_inv_Main_8:
  assumes i: "startup_inv s" and p: "pc s = 8" and st: "step Main s = Some s'"
  shows "startup_inv s'"
proof -
  from st p have "ready_semaphore s \<noteq> 0"
      and "s' = s\<lparr>pc := 9, ready_semaphore := ready_semaphore s - 1\<rparr>"
    by (auto simp add: kore_step_def kore_def split: if_splits)
  with i p show ?thesis by (simp add: startup_inv_def split: if_splits)
qed

lemma startup_inv_Main_9:
  assumes i: "startup_inv s" and p: "pc s = 9" and st: "step Main s = Some s'"
  shows "startup_inv s'"
proof -
  from st p have "s' = s\<lparr>pc := 10\<rparr>"
    by (auto simp add: kore_step_def kore_def)
  with i p show ?thesis by (simp add: startup_inv_def)
qed

lemma startup_inv_Main_10:
  assumes i: "startup_inv s" and p: "pc s = 10" and st: "step Main s = Some s'"
  shows "startup_inv s'"
proof -
  from st p have "s' = s\<lparr>pc := 11\<rparr>"
    by (auto simp add: kore_step_def kore_def)
  with i p show ?thesis by (simp add: startup_inv_def)
qed

lemma startup_inv_Main_11:
  assumes i: "startup_inv s" and p: "pc s = 11" and st: "step Main s = Some s'"
  shows "startup_inv s'"
proof -
  from st p have "s' = s\<lparr>pc := 12\<rparr>"
    by (auto simp add: kore_step_def kore_def)
  with i p show ?thesis by (simp add: startup_inv_def)
qed

lemma startup_inv_Main_12:
  assumes i: "startup_inv s" and p: "pc s = 12" and st: "step Main s = Some s'"
  shows "startup_inv s'"
proof -
  from st p have "s' = s\<lparr>pc := 13, constructed := insert Server (constructed s)\<rparr>"
    by (auto simp add: kore_step_def kore_def)
  with i p show ?thesis by (simp add: startup_inv_def)
qed

lemma startup_inv_Main_13:
  assumes i: "startup_inv s" and p: "pc s = 13" and st: "step Main s = Some s'"
  shows "startup_inv s'"
proof -
  from st p have "s' = s"
    by (simp add: kore_step_def kore_def)
  with i show ?thesis by simp
qed

lemma startup_inv_Main:
  assumes i: "startup_inv s" and st: "step Main s = Some s'"
  shows "startup_inv s'"
proof -
  from i have "pc s \<le> 13" by (simp add: startup_inv_def)
  from pc_cases [OF this] show ?thesis
  proof (elim disjE)
    assume "pc s = 0"
    then show ?thesis by (rule startup_inv_Main_0 [OF i _ st])
  next
    assume "pc s = 1"
    then show ?thesis by (rule startup_inv_Main_1 [OF i _ st])
  next
    assume "pc s = 2"
    then show ?thesis by (rule startup_inv_Main_2 [OF i _ st])
  next
    assume "pc s = 3"
    then show ?thesis by (rule startup_inv_Main_3 [OF i _ st])
  next
    assume "pc s = 4"
    then show ?thesis by (rule startup_inv_Main_4 [OF i _ st])
  next
    assume "pc s = 5"
    then show ?thesis by (rule startup_inv_Main_5 [OF i _ st])
  next
    assume "pc s = 6"
    then show ?thesis by (rule startup_inv_Main_6 [OF i _ st])
  next
    assume "pc s = 7"
    then show ?thesis by (rule startup_inv_Main_7 [OF i _ st])
  next
    assume "pc s = 8"
    then show ?thesis by (rule startup_inv_Main_8 [OF i _ st])
  next
    assume "pc s = 9"
    then show ?thesis by (rule startup_inv_Main_9 [OF i _ st])
  next
    assume "pc s = 10"
    then show ?thesis by (rule startup_inv_Main_10 [OF i _ st])
  next
    assume "pc s = 11"
    then show ?thesis by (rule startup_inv_Main_11 [OF i _ st])
  next
    assume "pc s = 12"
    then show ?thesis by (rule startup_inv_Main_12 [OF i _ st])
  next
    assume "pc s = 13"
    then show ?thesis by (rule startup_inv_Main_13 [OF i _ st])
  qed
qed

lemma startup_inv_run: "startup_inv s \<Longrightarrow> run sched s = Some s' \<Longrightarrow> startup_inv s'"
proof (induction sched arbitrary: s)
  case Nil
  then show ?case by simp
next
  case (Cons a sched)
  then obtain s1 where s1: "step a s = Some s1" and r: "run sched s1 = Some s'"
    by (auto split: option.splits)
  have "startup_inv s1"
  proof (cases a)
    case Main
    with Cons.prems(1) s1 show ?thesis by (simp add: startup_inv_Main)
  next
    case (Ready c)
    with Cons.prems(1) s1 show ?thesis by (simp add: startup_inv_Ready)
  qed
  then show ?case using Cons.IH r by blast
qed

lemma run_demo_schedule:
  "run demo_schedule kore_init
     = Some \<lparr>pc = 13, ready_semaphore = 0,
             constructed = {Server, InspectorClient, FrontendRunner, BackendRunner},
             signalled = {InspectorClient, FrontendRunner, BackendRunner}\<rparr>"
  by (simp add: demo_schedule_def kore_init_def kore_step_def signal_ready_def kore_def)

text \<open>
  Claim C8, as the code has it. Startup is a three-stage barrier on one semaphore: under
  every interleaving of the main thread with the components' signals, the frontend runner
  is constructed only after the backend runner has signalled, the inspector client only
  after the frontend runner has signalled, and the transport server is started only after
  the inspector client has signalled. Once the server is started the main thread is in
  \<open>while (true) {}\<close>, where it goes round whether or not the server has signalled.
\<close>

theorem kore_startup_barriers:
  "run sched kore_init = Some s \<longrightarrow>
     (FrontendRunner \<in> constructed s \<longrightarrow> BackendRunner \<in> signalled s)
     \<and> (InspectorClient \<in> constructed s \<longrightarrow> FrontendRunner \<in> signalled s)
     \<and> (Server \<in> constructed s \<longrightarrow> InspectorClient \<in> signalled s)
     \<and> (Server \<in> constructed s \<longrightarrow> kore ! pc s = While_true \<and> step Main s = Some s)"
proof
  assume "run sched kore_init = Some s"
  then have i: "startup_inv s"
    using startup_inv_init startup_inv_run by blast
  then have "Server \<in> constructed s \<longrightarrow> pc s = 13"
    by (simp add: startup_inv_def)
  with i show "(FrontendRunner \<in> constructed s \<longrightarrow> BackendRunner \<in> signalled s)
     \<and> (InspectorClient \<in> constructed s \<longrightarrow> FrontendRunner \<in> signalled s)
     \<and> (Server \<in> constructed s \<longrightarrow> InspectorClient \<in> signalled s)
     \<and> (Server \<in> constructed s \<longrightarrow> kore ! pc s = While_true \<and> step Main s = Some s)"
    by (simp add: startup_inv_def kore_step_def kore_def)
qed

theorem kore_startup_barriers_witness:
  "BackendRunner \<in> signalled (the (run demo_schedule kore_init))
   \<and> FrontendRunner \<in> signalled (the (run demo_schedule kore_init))
   \<and> InspectorClient \<in> signalled (the (run demo_schedule kore_init))
   \<and> kore ! pc (the (run demo_schedule kore_init)) = While_true"
  using kore_startup_barriers
          [where sched = demo_schedule
             and s = "\<lparr>pc = 13, ready_semaphore = 0,
                        constructed = {Server, InspectorClient, FrontendRunner, BackendRunner},
                        signalled = {InspectorClient, FrontendRunner, BackendRunner}\<rparr>"]
  by (simp add: run_demo_schedule)

text \<open>
  The claim as written has a fourth wait, for the transport's signal. The statement after
  \<open>startServer\<close> is the endless loop, no \<open>Wait\<close> follows it, and there is an interleaving
  in which the main thread is in that loop while the server has not signalled.
\<close>

theorem kore_transport_wait_counterexample:
  "run demo_schedule kore_init
     = Some \<lparr>pc = 13, ready_semaphore = 0,
             constructed = {Server, InspectorClient, FrontendRunner, BackendRunner},
             signalled = {InspectorClient, FrontendRunner, BackendRunner}\<rparr>
   \<and> kore ! 12 = Construct Server
   \<and> kore ! 13 = While_true
   \<and> Server \<notin> {InspectorClient, FrontendRunner, BackendRunner}
   \<and> Wait \<notin> set (drop 12 kore)"
  by (simp add: demo_schedule_def kore_init_def kore_step_def signal_ready_def kore_def)

end
